theory Spec2Isabelle
  imports Main "HOL-Library.Sublist"
begin

section \<open>Workspace discovery: rules file, repositories, connections\<close>

text \<open>
  The three exported functions \<open>getUserRules\<close>, \<open>getRepositories\<close> and
  \<open>getConnections\<close> read the process configuration (\<open>env.NAO_DEFAULT_PROJECT_PATH\<close>)
  and the file system (through \<open>existsSync\<close>, \<open>readdirSync\<close> and \<open>readFileSync\<close> of
  Node's \<open>fs\<close> module). The configuration and the file system are explicit arguments here.
  A JavaScript exception is the left summand of a sum type, \<open>null\<close> is \<open>None\<close>.
\<close>

subsection \<open>Configuration and file system\<close>

text \<open>
  \<open>env.NAO_DEFAULT_PROJECT_PATH\<close> is a string or \<open>undefined\<close>. The test
  \<open>!projectFolder\<close> holds for \<open>undefined\<close> and for the empty string.
\<close>

record env =
  NAO_DEFAULT_PROJECT_PATH :: "string option"

definition falsy :: "string option \<Rightarrow> bool" where
  "falsy v = (case v of None \<Rightarrow> True | Some s \<Rightarrow> s = [])"

text \<open>The exception a call of the \<open>fs\<close> module throws, with its error code.\<close>

datatype error = SystemError string

text \<open>An entry of a directory listing (\<open>withFileTypes: true\<close>): its name and its kind.\<close>

datatype Dirent = Dirent (dirent_name: string) (isDirectory: bool)

text \<open>
  The file system as the three calls see it. \<open>existsSync\<close> never throws (it answers
  \<open>false\<close> on any error); \<open>readdirSync\<close> and \<open>readFileSync\<close> return or throw. The three
  are independent of each other, so a file that exists and cannot be read, or that is
  deleted between the test and the read, is one of the states.
\<close>

record filesystem =
  existsSync :: "string \<Rightarrow> bool"
  readdirSync :: "string \<Rightarrow> error + Dirent list"
  readFileSync :: "string \<Rightarrow> error + string"

subsection \<open>\<open>path.join\<close>\<close>

text \<open>
  \<open>join\<close> is imported from Node's \<open>path\<close> module, which is not part of the repository.
  It is modelled here as the POSIX variant behaves: the non-empty arguments are
  concatenated with \<open>/\<close> between them and the result is normalised (empty and \<open>.\<close>
  segments dropped, \<open>..\<close> cancelling the segment before it, a leading and a trailing
  \<open>/\<close> kept). A path is split at every \<open>/\<close>; the normaliser keeps the segments seen so
  far as a stack, the last one first.
\<close>

fun segments :: "string \<Rightarrow> string list" where
  "segments [] = [[]]"
| "segments (c # cs) =
     (if c = CHR ''/'' then [] # segments cs
      else (case segments cs of [] \<Rightarrow> [[c]] | s # ss \<Rightarrow> (c # s) # ss))"

fun join_sep :: "string list \<Rightarrow> string" where
  "join_sep [] = []"
| "join_sep [s] = s"
| "join_sep (s # t # ts) = s @ CHR ''/'' # join_sep (t # ts)"

definition norm_step :: "bool \<Rightarrow> string list \<Rightarrow> string \<Rightarrow> string list" where
  "norm_step allowAboveRoot st seg =
     (if seg = [] \<or> seg = ''.'' then st
      else if seg = ''..'' then
        (case st of
           [] \<Rightarrow> if allowAboveRoot then [''..''] else []
         | t # ts \<Rightarrow>
             if t = ''..'' then (if allowAboveRoot then ''..'' # st else st) else ts)
      else seg # st)"

definition normalizeString :: "string \<Rightarrow> bool \<Rightarrow> string" where
  "normalizeString path allowAboveRoot =
     join_sep (rev (foldl (norm_step allowAboveRoot) [] (segments path)))"

definition normalize_path :: "string \<Rightarrow> string" where
  "normalize_path path =
     (if path = [] then ''.''
      else
        let isAbsolute = (hd path = CHR ''/'');
            trailingSeparator = (last path = CHR ''/'');
            p = normalizeString path (\<not> isAbsolute)
        in if p = [] then (if isAbsolute then ''/'' else if trailingSeparator then ''./'' else ''.'')
           else
             let p' = (if trailingSeparator then p @ ''/'' else p)
             in if isAbsolute then CHR ''/'' # p' else p')"

definition join :: "string list \<Rightarrow> string" where
  "join args =
     (let parts = filter (\<lambda>a. a \<noteq> []) args
      in if parts = [] then ''.'' else normalize_path (join_sep parts))"

text \<open>
  The invariant of the normaliser's stack: every segment is non-empty, is not \<open>.\<close> and
  holds no \<open>/\<close>, and a \<open>..\<close> is kept only above the root of a relative path, with
  nothing but \<open>..\<close> below it.
\<close>

fun wf_stack :: "bool \<Rightarrow> string list \<Rightarrow> bool" where
  "wf_stack allow [] = True"
| "wf_stack allow (s # st) =
     (s \<noteq> [] \<and> s \<noteq> ''.'' \<and> CHR ''/'' \<notin> set s \<and>
      (s = ''..'' \<longrightarrow> allow \<and> set st \<subseteq> {''..''}) \<and> wf_stack allow st)"

subsection \<open>\<open>getUserRules\<close>\<close>

text \<open>
  The \<open>try\<close> block is a computation that returns or throws; the \<open>catch\<close> clause logs
  the error (the log is not part of the model) and returns \<open>null\<close>. The function itself
  has the same result type, so that an exception leaving it would be a value \<open>Inl\<close>.
\<close>

definition try_catch :: "error + 'a \<Rightarrow> (error \<Rightarrow> error + 'a) \<Rightarrow> error + 'a" where
  "try_catch body handler = (case body of Inl e \<Rightarrow> handler e | Inr v \<Rightarrow> Inr v)"

definition getUserRules :: "env \<Rightarrow> filesystem \<Rightarrow> error + string option" where
  "getUserRules ev fs =
     (let projectFolder = NAO_DEFAULT_PROJECT_PATH ev in
      if falsy projectFolder then Inr None
      else
        let rulesPath = join [the projectFolder, ''RULES.md''] in
        if \<not> existsSync fs rulesPath then Inr None
        else
          try_catch
            (case readFileSync fs rulesPath of
               Inl e \<Rightarrow> Inl e
             | Inr rulesContent \<Rightarrow> Inr (Some rulesContent))
            (\<lambda>e. Inr None))"

subsection \<open>\<open>getRepositories\<close>\<close>

text \<open>
  The optional fields \<open>dbtProjectPath\<close> and \<open>indexed\<close> of the type \<open>Repository\<close> are
  options: \<open>None\<close> is a field that is absent or \<open>undefined\<close>.
\<close>

record Repository =
  name :: string
  hasDbtProject :: bool
  dbtProjectPath :: "string option"
  indexed :: "bool option"

text \<open>One round of the loop over the entries of \<open>repos/\<close>, for an entry that is a directory.\<close>

definition repository_of :: "filesystem \<Rightarrow> string \<Rightarrow> Dirent \<Rightarrow> Repository" where
  "repository_of fs reposPath entry =
     (let rootDbtProject = join [reposPath, dirent_name entry, ''dbt_project.yml''];
          subDbtProject = join [reposPath, dirent_name entry, ''dbt'', ''dbt_project.yml''];
          (hasDbtProject0, dbtProjectPath0) =
            (if existsSync fs rootDbtProject then
               (True, Some (''repos/'' @ dirent_name entry))
             else if existsSync fs subDbtProject then
               (True, Some (''repos/'' @ dirent_name entry @ ''/dbt''))
             else (False, None));
          indexed0 =
            (if hasDbtProject0 then
               existsSync fs
                 (join [reposPath, ''..'', ''dbt-index'', dirent_name entry, ''manifest.md''])
             else False)
      in \<lparr> name = dirent_name entry, hasDbtProject = hasDbtProject0,
           dbtProjectPath = dbtProjectPath0, indexed = Some indexed0 \<rparr>)"

fun repos_loop :: "filesystem \<Rightarrow> string \<Rightarrow> Dirent list \<Rightarrow> Repository list \<Rightarrow> Repository list" where
  "repos_loop fs reposPath [] repositories = repositories"
| "repos_loop fs reposPath (entry # entries) repositories =
     (if \<not> isDirectory entry then repos_loop fs reposPath entries repositories
      else repos_loop fs reposPath entries
             (repositories @ [repository_of fs reposPath entry]))"

definition getRepositories :: "env \<Rightarrow> filesystem \<Rightarrow> error + Repository list option" where
  "getRepositories ev fs =
     (let projectFolder = NAO_DEFAULT_PROJECT_PATH ev in
      if falsy projectFolder then Inr None
      else
        let reposPath = join [the projectFolder, ''repos''] in
        if \<not> existsSync fs reposPath then Inr None
        else
          try_catch
            (case readdirSync fs reposPath of
               Inl e \<Rightarrow> Inl e
             | Inr entries \<Rightarrow>
                 let repositories = repos_loop fs reposPath entries []
                 in Inr (if length repositories > 0 then Some repositories else None))
            (\<lambda>e. Inr None))"

subsection \<open>\<open>getConnections\<close>\<close>

record Connection =
  type :: string
  database :: string

fun db_loop :: "string \<Rightarrow> Dirent list \<Rightarrow> Connection list \<Rightarrow> Connection list" where
  "db_loop type0 [] connections = connections"
| "db_loop type0 (dbEntry # dbEntries) connections =
     (if isDirectory dbEntry \<and> prefix ''database='' (dirent_name dbEntry) then
        let database0 = drop (length ''database='') (dirent_name dbEntry) in
        if database0 \<noteq> [] then
          db_loop type0 dbEntries (connections @ [\<lparr> type = type0, database = database0 \<rparr>])
        else db_loop type0 dbEntries connections
      else db_loop type0 dbEntries connections)"

fun conn_loop ::
  "filesystem \<Rightarrow> string \<Rightarrow> Dirent list \<Rightarrow> Connection list \<Rightarrow> error + Connection list" where
  "conn_loop fs databasesPath [] connections = Inr connections"
| "conn_loop fs databasesPath (entry # entries) connections =
     (if isDirectory entry \<and> prefix ''type='' (dirent_name entry) then
        let type0 = drop (length ''type='') (dirent_name entry) in
        if type0 \<noteq> [] then
          let typePath = join [databasesPath, dirent_name entry] in
          (case readdirSync fs typePath of
             Inl e \<Rightarrow> Inl e
           | Inr dbEntries \<Rightarrow>
               conn_loop fs databasesPath entries (db_loop type0 dbEntries connections))
        else conn_loop fs databasesPath entries connections
      else conn_loop fs databasesPath entries connections)"

definition getConnections :: "env \<Rightarrow> filesystem \<Rightarrow> error + Connection list option" where
  "getConnections ev fs =
     (let projectFolder = NAO_DEFAULT_PROJECT_PATH ev in
      if falsy projectFolder then Inr None
      else
        let databasesPath = join [the projectFolder, ''databases''] in
        if \<not> existsSync fs databasesPath then Inr None
        else
          try_catch
            (case readdirSync fs databasesPath of
               Inl e \<Rightarrow> Inl e
             | Inr entries \<Rightarrow>
                 (case conn_loop fs databasesPath entries [] of
                    Inl e \<Rightarrow> Inl e
                  | Inr connections \<Rightarrow>
                      Inr (if length connections > 0 then Some connections else None)))
            (\<lambda>e. Inr None))"

subsection \<open>The calls of the \<open>fs\<close> module, recorded\<close>

text \<open>
  The same three functions once more, returning beside their result the list of the
  calls of \<open>existsSync\<close>, \<open>readdirSync\<close> and \<open>readFileSync\<close> they make, in the order
  they make them. A call that throws is a call made, and is recorded. The \<open>catch\<close>
  clauses call nothing. The second \<open>existsSync\<close> of a round of the repository loop is in
  the \<open>else if\<close>, so it is made only when the first answered \<open>false\<close>; the third is
  inside \<open>if (hasDbtProject)\<close>.
\<close>

datatype fs_call = ExistsSync string | ReaddirSync string | ReadFileSync string

definition existsSync_traced :: "filesystem \<Rightarrow> string \<Rightarrow> fs_call list \<Rightarrow> bool \<times> fs_call list" where
  "existsSync_traced fs p calls = (existsSync fs p, calls @ [ExistsSync p])"

definition readdirSync_traced ::
  "filesystem \<Rightarrow> string \<Rightarrow> fs_call list \<Rightarrow> (error + Dirent list) \<times> fs_call list" where
  "readdirSync_traced fs p calls = (readdirSync fs p, calls @ [ReaddirSync p])"

definition readFileSync_traced ::
  "filesystem \<Rightarrow> string \<Rightarrow> fs_call list \<Rightarrow> (error + string) \<times> fs_call list" where
  "readFileSync_traced fs p calls = (readFileSync fs p, calls @ [ReadFileSync p])"

definition getUserRules_traced :: "env \<Rightarrow> filesystem \<Rightarrow> (error + string option) \<times> fs_call list" where
  "getUserRules_traced ev fs =
     (let projectFolder = NAO_DEFAULT_PROJECT_PATH ev in
      if falsy projectFolder then (Inr None, [])
      else
        let rulesPath = join [the projectFolder, ''RULES.md''];
            (found, calls1) = existsSync_traced fs rulesPath []
        in if \<not> found then (Inr None, calls1)
           else
             let (content, calls2) = readFileSync_traced fs rulesPath calls1
             in (try_catch
                   (case content of
                      Inl e \<Rightarrow> Inl e
                    | Inr rulesContent \<Rightarrow> Inr (Some rulesContent))
                   (\<lambda>e. Inr None),
                 calls2))"

definition repository_traced ::
  "filesystem \<Rightarrow> string \<Rightarrow> Dirent \<Rightarrow> fs_call list \<Rightarrow> Repository \<times> fs_call list" where
  "repository_traced fs reposPath entry calls =
     (let rootDbtProject = join [reposPath, dirent_name entry, ''dbt_project.yml''];
          subDbtProject = join [reposPath, dirent_name entry, ''dbt'', ''dbt_project.yml''];
          (hasDbtProject0, dbtProjectPath0, calls2) =
            (let (foundRoot, calls1) = existsSync_traced fs rootDbtProject calls in
             if foundRoot then (True, Some (''repos/'' @ dirent_name entry), calls1)
             else
               let (foundSub, calls2) = existsSync_traced fs subDbtProject calls1 in
               if foundSub then (True, Some (''repos/'' @ dirent_name entry @ ''/dbt''), calls2)
               else (False, None, calls2));
          (indexed0, calls3) =
            (if hasDbtProject0 then
               existsSync_traced fs
                 (join [reposPath, ''..'', ''dbt-index'', dirent_name entry, ''manifest.md''])
                 calls2
             else (False, calls2))
      in (\<lparr> name = dirent_name entry, hasDbtProject = hasDbtProject0,
            dbtProjectPath = dbtProjectPath0, indexed = Some indexed0 \<rparr>, calls3))"

fun repos_loop_traced ::
  "filesystem \<Rightarrow> string \<Rightarrow> Dirent list \<Rightarrow> Repository list \<Rightarrow> fs_call list \<Rightarrow>
   Repository list \<times> fs_call list" where
  "repos_loop_traced fs reposPath [] repositories calls = (repositories, calls)"
| "repos_loop_traced fs reposPath (entry # entries) repositories calls =
     (if \<not> isDirectory entry then repos_loop_traced fs reposPath entries repositories calls
      else
        let (repository, calls1) = repository_traced fs reposPath entry calls
        in repos_loop_traced fs reposPath entries (repositories @ [repository]) calls1)"

definition getRepositories_traced ::
  "env \<Rightarrow> filesystem \<Rightarrow> (error + Repository list option) \<times> fs_call list" where
  "getRepositories_traced ev fs =
     (let projectFolder = NAO_DEFAULT_PROJECT_PATH ev in
      if falsy projectFolder then (Inr None, [])
      else
        let reposPath = join [the projectFolder, ''repos''];
            (found, calls1) = existsSync_traced fs reposPath []
        in if \<not> found then (Inr None, calls1)
           else
             let (listing, calls2) = readdirSync_traced fs reposPath calls1
             in (case listing of
                   Inl e \<Rightarrow> (try_catch (Inl e) (\<lambda>e. Inr None), calls2)
                 | Inr entries \<Rightarrow>
                     let (repositories, calls3) =
                           repos_loop_traced fs reposPath entries [] calls2
                     in (try_catch
                           (Inr (if length repositories > 0 then Some repositories else None))
                           (\<lambda>e. Inr None),
                         calls3)))"

fun conn_loop_traced ::
  "filesystem \<Rightarrow> string \<Rightarrow> Dirent list \<Rightarrow> Connection list \<Rightarrow> fs_call list \<Rightarrow>
   (error + Connection list) \<times> fs_call list" where
  "conn_loop_traced fs databasesPath [] connections calls = (Inr connections, calls)"
| "conn_loop_traced fs databasesPath (entry # entries) connections calls =
     (if isDirectory entry \<and> prefix ''type='' (dirent_name entry) then
        let type0 = drop (length ''type='') (dirent_name entry) in
        if type0 \<noteq> [] then
          let typePath = join [databasesPath, dirent_name entry];
              (listing, calls1) = readdirSync_traced fs typePath calls
          in (case listing of
                Inl e \<Rightarrow> (Inl e, calls1)
              | Inr dbEntries \<Rightarrow>
                  conn_loop_traced fs databasesPath entries
                    (db_loop type0 dbEntries connections) calls1)
        else conn_loop_traced fs databasesPath entries connections calls
      else conn_loop_traced fs databasesPath entries connections calls)"

definition getConnections_traced ::
  "env \<Rightarrow> filesystem \<Rightarrow> (error + Connection list option) \<times> fs_call list" where
  "getConnections_traced ev fs =
     (let projectFolder = NAO_DEFAULT_PROJECT_PATH ev in
      if falsy projectFolder then (Inr None, [])
      else
        let databasesPath = join [the projectFolder, ''databases''];
            (found, calls1) = existsSync_traced fs databasesPath []
        in if \<not> found then (Inr None, calls1)
           else
             let (listing, calls2) = readdirSync_traced fs databasesPath calls1
             in (case listing of
                   Inl e \<Rightarrow> (try_catch (Inl e) (\<lambda>e. Inr None), calls2)
                 | Inr entries \<Rightarrow>
                     let (scanned, calls3) =
                           conn_loop_traced fs databasesPath entries [] calls2
                     in (try_catch
                           (case scanned of
                              Inl e \<Rightarrow> Inl e
                            | Inr connections \<Rightarrow>
                                Inr (if length connections > 0 then Some connections else None))
                           (\<lambda>e. Inr None),
                         calls3)))"

section \<open>The connection scan as the specification words it\<close>

text \<open>
  The specification describes the connection scan by a rule on directory names: an entry
  counts when it is a directory whose name starts with the literal prefix and has a
  non-empty remainder after it; the value is that remainder. Every valid pair of a type
  directory and a database directory below it is one record, the databases of one type
  together, in the order of the listings. \<open>dbs t\<close> is the listing of the type directory
  \<open>t\<close>. These definitions follow the specification; the loops above follow the code.
\<close>

definition qualifies :: "string \<Rightarrow> Dirent \<Rightarrow> bool" where
  "qualifies pre e =
     (isDirectory e \<and> prefix pre (dirent_name e) \<and> drop (length pre) (dirent_name e) \<noteq> [])"

definition remainder :: "string \<Rightarrow> Dirent \<Rightarrow> string" where
  "remainder pre e = drop (length pre) (dirent_name e)"

definition spec_connections :: "Dirent list \<Rightarrow> (Dirent \<Rightarrow> Dirent list) \<Rightarrow> Connection list" where
  "spec_connections entries dbs =
     concat (map (\<lambda>t. map (\<lambda>d. \<lparr> type = remainder ''type='' t,
                                  database = remainder ''database='' d \<rparr>)
                          (filter (qualifies ''database='') (dbs t)))
                 (filter (qualifies ''type='') entries))"

section \<open>Example workspaces\<close>

text \<open>
  A workspace rooted at \<open>/w\<close>. \<open>repos/\<close> holds a project with a manifest at both
  places (\<open>foo\<close>, not indexed), a project with a nested manifest only (\<open>bar\<close>, indexed),
  a directory that is no project although an index artifact of its name exists (\<open>baz\<close>),
  and a file. \<open>databases/\<close> holds two type directories with databases, a bare \<open>type=\<close>,
  a directory without the prefix and a file with it. \<open>RULES.md\<close> exists and is empty.
\<close>

definition example_env :: env where
  "example_env = \<lparr> NAO_DEFAULT_PROJECT_PATH = Some ''/w'' \<rparr>"

definition unset_env :: env where
  "unset_env = \<lparr> NAO_DEFAULT_PROJECT_PATH = None \<rparr>"

definition empty_root_env :: env where
  "empty_root_env = \<lparr> NAO_DEFAULT_PROJECT_PATH = Some [] \<rparr>"

definition example_fs :: filesystem where
  "example_fs =
     \<lparr> existsSync = (\<lambda>p. p \<in> set [''/w/RULES.md'', ''/w/repos'', ''/w/databases'',
            ''/w/repos/foo/dbt_project.yml'', ''/w/repos/foo/dbt/dbt_project.yml'',
            ''/w/repos/bar/dbt/dbt_project.yml'', ''/w/dbt-index/bar/manifest.md'',
            ''/w/dbt-index/baz/manifest.md'']),
       readdirSync = (\<lambda>p.
         if p = ''/w/repos'' then
           Inr [Dirent ''foo'' True, Dirent ''README.md'' False, Dirent ''bar'' True,
                Dirent ''baz'' True]
         else if p = ''/w/databases'' then
           Inr [Dirent ''type=postgres'' True, Dirent ''type='' True, Dirent ''notes'' True,
                Dirent ''type=file'' False, Dirent ''type=bigquery'' True]
         else if p = ''/w/databases/type=postgres'' then
           Inr [Dirent ''database=sales'' True, Dirent ''database='' True,
                Dirent ''schema=x'' True, Dirent ''database=marketing'' True]
         else if p = ''/w/databases/type=bigquery'' then
           Inr [Dirent ''database=sales'' True, Dirent ''database=raw'' False]
         else if p = ''/w/databases/type='' then Inr [Dirent ''database=x'' True]
         else Inl (SystemError ''ENOENT'')),
       readFileSync = (\<lambda>p. if p = ''/w/RULES.md'' then Inr [] else Inl (SystemError ''ENOENT'')) \<rparr>"

text \<open>A workspace whose only repository directory has no manifest, but an index artifact.\<close>

definition noproject_fs :: filesystem where
  "noproject_fs =
     \<lparr> existsSync = (\<lambda>p. p \<in> set [''/w/repos'', ''/w/dbt-index/baz/manifest.md'']),
       readdirSync = (\<lambda>p. if p = ''/w/repos'' then Inr [Dirent ''baz'' True]
                          else Inl (SystemError ''ENOENT'')),
       readFileSync = (\<lambda>p. Inl (SystemError ''ENOENT'')) \<rparr>"

text \<open>A workspace whose \<open>repos/\<close> and \<open>databases/\<close> exist and are empty; no rules file.\<close>

definition emptydir_fs :: filesystem where
  "emptydir_fs =
     \<lparr> existsSync = (\<lambda>p. p \<in> set [''/w/repos'', ''/w/databases'']),
       readdirSync = (\<lambda>p. if p \<in> set [''/w/repos'', ''/w/databases''] then Inr []
                          else Inl (SystemError ''ENOENT'')),
       readFileSync = (\<lambda>p. Inl (SystemError ''ENOENT'')) \<rparr>"

text \<open>
  A workspace where the rules file and \<open>repos/\<close> exist and cannot be read, and where the
  second type directory of \<open>databases/\<close> cannot be listed after the first one gave a
  connection.
\<close>

definition broken_fs :: filesystem where
  "broken_fs =
     \<lparr> existsSync = (\<lambda>p. p \<in> set [''/w/RULES.md'', ''/w/repos'', ''/w/databases'']),
       readdirSync = (\<lambda>p.
         if p = ''/w/databases'' then
           Inr [Dirent ''type=postgres'' True, Dirent ''type=bigquery'' True]
         else if p = ''/w/databases/type=postgres'' then Inr [Dirent ''database=sales'' True]
         else Inl (SystemError ''EACCES'')),
       readFileSync = (\<lambda>p. Inl (SystemError ''EACCES'')) \<rparr>"

text \<open>A workspace where everything exists and nothing can be read.\<close>

definition unreadable_fs :: filesystem where
  "unreadable_fs =
     \<lparr> existsSync = (\<lambda>p. True),
       readdirSync = (\<lambda>p. Inl (SystemError ''EACCES'')),
       readFileSync = (\<lambda>p. Inl (SystemError ''EACCES'')) \<rparr>"

section \<open>Properties of \<open>path.join\<close>\<close>

text \<open>Splitting at \<open>/\<close> and joining with \<open>/\<close> undo each other.\<close>

lemma segments_not_Nil: "segments p \<noteq> []"
  by (induction p) (auto split: list.splits)

lemma segments_append_slash: "segments (a @ CHR ''/'' # b) = segments a @ segments b"
proof (induction a)
  case Nil
  show ?case by simp
next
  case (Cons c a)
  obtain s ss where "segments a = s # ss"
    using segments_not_Nil [of a] by (cases "segments a") auto
  with Cons show ?case by simp
qed

lemma segments_no_slash: "CHR ''/'' \<notin> set s \<Longrightarrow> segments s = [s]"
  by (induction s) auto

lemma segments_free: "s \<in> set (segments p) \<Longrightarrow> CHR ''/'' \<notin> set s"
proof (induction p arbitrary: s)
  case Nil
  then show ?case by simp
next
  case (Cons c p)
  obtain t ts where ts: "segments p = t # ts"
    using segments_not_Nil [of p] by (cases "segments p") auto
  show ?case
  proof (cases "c = CHR ''/''")
    case True
    with Cons show ?thesis by auto
  next
    case False
    with Cons.prems ts have "s = c # t \<or> s \<in> set ts" by simp
    then show ?thesis
      using Cons.IH [of t] Cons.IH [of s] ts False by auto
  qed
qed

lemma segments_join_sep:
  "xs \<noteq> [] \<Longrightarrow> \<forall>s\<in>set xs. CHR ''/'' \<notin> set s \<Longrightarrow> segments (join_sep xs) = xs"
proof (induction xs rule: join_sep.induct)
  case 1
  then show ?case by simp
next
  case (2 s)
  then show ?case by (simp add: segments_no_slash)
next
  case (3 s t ts)
  then show ?case by (simp add: segments_append_slash segments_no_slash)
qed

lemma hd_join_sep: "x \<noteq> [] \<Longrightarrow> hd (join_sep (x # xs)) = hd x"
  by (cases xs) auto

text \<open>The normaliser keeps the invariant of its stack, and replaying a stack rebuilds it.\<close>

lemma norm_step_wf:
  "wf_stack allow st \<Longrightarrow> CHR ''/'' \<notin> set seg \<Longrightarrow> wf_stack allow (norm_step allow st seg)"
  by (cases st) (auto simp: norm_step_def)

lemma foldl_norm_step_wf:
  "wf_stack allow st \<Longrightarrow> \<forall>s\<in>set segs. CHR ''/'' \<notin> set s \<Longrightarrow>
   wf_stack allow (foldl (norm_step allow) st segs)"
  by (induction segs arbitrary: st) (auto simp: norm_step_wf)

lemma wf_stack_set: "wf_stack allow st \<Longrightarrow> s \<in> set st \<Longrightarrow> s \<noteq> [] \<and> CHR ''/'' \<notin> set s"
  by (induction st) auto

lemma norm_step_push: "wf_stack allow (s # st) \<Longrightarrow> norm_step allow st s = s # st"
  by (cases st) (simp_all add: norm_step_def)

lemma replay_stack:
  "wf_stack allow (S @ T) \<Longrightarrow> foldl (norm_step allow) T (rev S) = S @ T"
proof (induction S)
  case Nil
  then show ?case by simp
next
  case (Cons s S)
  then have IH: "foldl (norm_step allow) T (rev S) = S @ T" by simp
  have "norm_step allow (S @ T) s = s # S @ T"
    using Cons.prems by (intro norm_step_push) simp
  with IH show ?case by simp
qed

lemma normalize_path_not_Nil: "normalize_path p \<noteq> []"
  by (simp add: normalize_path_def Let_def)

lemma norm_step_skip: "norm_step allow st [] = st"
  by (simp add: norm_step_def)

text \<open>
  Normalising a path again reaches the same stack, and keeps the path absolute or
  relative. So a normalised prefix can be joined on as if it had not been normalised.
\<close>

lemma normalize_path_replay:
  assumes "a \<noteq> []"
  shows "foldl (norm_step (hd a \<noteq> CHR ''/'')) [] (segments (normalize_path a)) =
         foldl (norm_step (hd a \<noteq> CHR ''/'')) [] (segments a) \<and>
         (hd (normalize_path a) = CHR ''/'') = (hd a = CHR ''/'')"
proof -
  define ab where "ab = (hd a = CHR ''/'')"
  define step where "step = norm_step (\<not> ab)"
  define S where "S = foldl step [] (segments a)"
  define P where "P = join_sep (rev S)"
  have wfS: "wf_stack (\<not> ab) S"
    unfolding S_def step_def by (rule foldl_norm_step_wf) (auto dest: segments_free)
  have nS: "normalizeString a (\<not> ab) = P"
    by (simp add: normalizeString_def P_def S_def step_def)
  show ?thesis
  proof (cases "S = []")
    case True
    then have "P = []" by (simp add: P_def)
    with nS assms have "normalize_path a = ''/'' \<and> ab \<or>
        normalize_path a = ''./'' \<and> \<not> ab \<or> normalize_path a = ''.'' \<and> \<not> ab"
      by (simp add: normalize_path_def Let_def ab_def)
    moreover have "foldl step [] (segments ''/'') = []" "foldl step [] (segments ''./'') = []"
      "foldl step [] (segments ''.'') = []"
      by (simp_all add: step_def norm_step_def)
    ultimately show ?thesis
      using True unfolding ab_def [symmetric] step_def [symmetric] S_def [symmetric]
      by auto
  next
    case False
    have free: "\<forall>s\<in>set (rev S). CHR ''/'' \<notin> set s"
      using wf_stack_set [OF wfS] by auto
    have segP: "segments P = rev S"
      unfolding P_def using free False by (intro segments_join_sep) auto
    have P_ne: "P \<noteq> []"
    proof
      assume "P = []"
      with segP have "S = [[]]" by (simp add: rev_eq_Cons_iff)
      with wfS show False by simp
    qed
    have hdP: "hd P \<noteq> CHR ''/''"
    proof (cases "rev S")
      case Nil
      with False show ?thesis by simp
    next
      case (Cons x xs)
      then have "x \<in> set (rev S)" by simp
      then have "x \<in> set S" by simp
      with wf_stack_set [OF wfS] have "x \<noteq> []" "CHR ''/'' \<notin> set x" by auto
      moreover have "hd P = hd x"
        unfolding P_def Cons using \<open>x \<noteq> []\<close> by (simp add: hd_join_sep)
      ultimately show ?thesis by (cases x) auto
    qed
    define P' where "P' = (if last a = CHR ''/'' then P @ ''/'' else P)"
    have n: "normalize_path a = (if ab then CHR ''/'' # P' else P')"
      using assms nS P_ne by (simp add: normalize_path_def Let_def ab_def P'_def)
    have sp: "foldl step [] (segments P) = S"
      unfolding segP step_def using replay_stack [of "\<not> ab" S "[]"] wfS by simp
    have "segments (P @ ''/'') = segments P @ [[]]"
      using segments_append_slash [of P "[]"] by simp
    with sp have "foldl step [] (segments (P @ ''/'')) = S"
      by (simp add: step_def norm_step_skip)
    with sp have sp': "foldl step [] (segments P') = S"
      by (simp add: P'_def)
    have "foldl step [] (segments (CHR ''/'' # P')) = foldl step [] (segments P')"
      by (simp add: step_def norm_step_skip)
    with sp' n have "foldl step [] (segments (normalize_path a)) = S"
      by simp
    moreover have "hd P' = hd P"
      using P_ne by (simp add: P'_def)
    with n hdP have "(hd (normalize_path a) = CHR ''/'') = ab"
      by simp
    ultimately show ?thesis
      unfolding ab_def [symmetric] step_def [symmetric] S_def [symmetric] by simp
  qed
qed

lemma normalize_path_cong:
  assumes "p \<noteq> []" and "q \<noteq> []"
    and "(hd p = CHR ''/'') = (hd q = CHR ''/'')"
    and "(last p = CHR ''/'') = (last q = CHR ''/'')"
    and "foldl (norm_step (hd q \<noteq> CHR ''/'')) [] (segments p) =
         foldl (norm_step (hd q \<noteq> CHR ''/'')) [] (segments q)"
  shows "normalize_path p = normalize_path q"
  using assms
  by (cases "hd q = CHR ''/''") (simp_all add: normalize_path_def normalizeString_def Let_def)

lemma normalize_path_prefix:
  assumes "a \<noteq> []" and "b \<noteq> []"
  shows "normalize_path (normalize_path a @ CHR ''/'' # b) = normalize_path (a @ CHR ''/'' # b)"
proof -
  define Q where "Q = normalize_path a"
  define step where "step = norm_step (hd a \<noteq> CHR ''/'')"
  have Q_ne: "Q \<noteq> []"
    unfolding Q_def by (rule normalize_path_not_Nil)
  from normalize_path_replay [OF assms(1)]
  have fQ: "foldl step [] (segments Q) = foldl step [] (segments a)"
    and hdQ: "(hd Q = CHR ''/'') = (hd a = CHR ''/'')"
    by (simp_all add: Q_def step_def)
  have "normalize_path (Q @ CHR ''/'' # b) = normalize_path (a @ CHR ''/'' # b)"
  proof (rule normalize_path_cong)
    show "(hd (Q @ CHR ''/'' # b) = CHR ''/'') = (hd (a @ CHR ''/'' # b) = CHR ''/'')"
      using Q_ne assms(1) hdQ by simp
    show "(last (Q @ CHR ''/'' # b) = CHR ''/'') = (last (a @ CHR ''/'' # b) = CHR ''/'')"
      using assms(2) by simp
    have "hd (a @ CHR ''/'' # b) = hd a" using assms(1) by simp
    then show "foldl (norm_step (hd (a @ CHR ''/'' # b) \<noteq> CHR ''/'')) []
            (segments (Q @ CHR ''/'' # b)) =
          foldl (norm_step (hd (a @ CHR ''/'' # b) \<noteq> CHR ''/'')) []
            (segments (a @ CHR ''/'' # b))"
      using fQ by (simp add: segments_append_slash step_def)
  qed simp_all
  then show ?thesis by (simp add: Q_def)
qed

text \<open>A segment followed by \<open>..\<close> cancels.\<close>

lemma normalize_path_cancel:
  assumes root: "root \<noteq> []" and rest: "rest \<noteq> []"
    and seg: "seg \<noteq> []" "seg \<noteq> ''.''" "seg \<noteq> ''..''" "CHR ''/'' \<notin> set seg"
  shows "normalize_path (root @ CHR ''/'' # seg @ ''/../'' @ rest) =
         normalize_path (root @ CHR ''/'' # rest)"
proof -
  define step where "step = norm_step (hd root \<noteq> CHR ''/'')"
  define S where "S = foldl step [] (segments root)"
  have "segments (root @ CHR ''/'' # seg @ ''/../'' @ rest) =
        segments root @ [seg, ''..''] @ segments rest"
    using segments_append_slash [of root "seg @ ''/../'' @ rest"]
      segments_append_slash [of seg "''..'' @ CHR ''/'' # rest"]
      segments_append_slash [of "''..''" rest] seg(4)
    by (simp add: segments_no_slash)
  moreover have "step (step S seg) ''..'' = S"
    using seg by (simp add: step_def norm_step_def)
  ultimately have f:
    "foldl step [] (segments (root @ CHR ''/'' # seg @ ''/../'' @ rest)) =
     foldl step [] (segments (root @ CHR ''/'' # rest))"
    by (simp add: segments_append_slash S_def)
  show ?thesis
  proof (rule normalize_path_cong)
    show "(hd (root @ CHR ''/'' # seg @ ''/../'' @ rest) = CHR ''/'') =
          (hd (root @ CHR ''/'' # rest) = CHR ''/'')"
      using root by simp
    show "(last (root @ CHR ''/'' # seg @ ''/../'' @ rest) = CHR ''/'') =
          (last (root @ CHR ''/'' # rest) = CHR ''/'')"
      using rest by simp
    have "hd (root @ CHR ''/'' # rest) = hd root" using root by simp
    then show "foldl (norm_step (hd (root @ CHR ''/'' # rest) \<noteq> CHR ''/'')) []
            (segments (root @ CHR ''/'' # seg @ ''/../'' @ rest)) =
          foldl (norm_step (hd (root @ CHR ''/'' # rest) \<noteq> CHR ''/'')) []
            (segments (root @ CHR ''/'' # rest))"
      using f by (simp add: step_def)
  qed simp_all
qed

lemma join_sep_Cons: "join_sep (x # xs) = (if xs = [] then x else x @ CHR ''/'' # join_sep xs)"
  by (cases xs) auto

lemma join_sep_not_Nil: "xs \<noteq> [] \<Longrightarrow> \<forall>x\<in>set xs. x \<noteq> [] \<Longrightarrow> join_sep xs \<noteq> []"
  by (cases xs) (auto simp: join_sep_Cons)

lemma join_nested:
  assumes "root \<noteq> []" and "a \<noteq> []" and "filter (\<lambda>x. x \<noteq> []) rest \<noteq> []"
  shows "join (join [root, a] # rest) = join (root # a # rest)"
proof -
  define b where "b = join_sep (filter (\<lambda>x. x \<noteq> []) rest)"
  have b: "b \<noteq> []"
    unfolding b_def using assms(3) by (intro join_sep_not_Nil) auto
  have j: "join [root, a] = normalize_path (root @ CHR ''/'' # a)"
    using assms by (simp add: join_def)
  then have ne: "join [root, a] \<noteq> []"
    by (simp add: normalize_path_not_Nil)
  have "join (join [root, a] # rest) = normalize_path (join [root, a] @ CHR ''/'' # b)"
    using ne assms(3) by (simp add: join_def [of "_ # _"] join_sep_Cons b_def)
  also have "\<dots> = normalize_path ((root @ CHR ''/'' # a) @ CHR ''/'' # b)"
    unfolding j using b by (intro normalize_path_prefix) auto
  also have "\<dots> = join (root # a # rest)"
    using assms by (simp add: join_def join_sep_Cons b_def)
  finally show ?thesis .
qed

lemma join_cancel:
  assumes "root \<noteq> []" and "filter (\<lambda>x. x \<noteq> []) rest \<noteq> []"
    and "seg \<noteq> []" "seg \<noteq> ''.''" "seg \<noteq> ''..''" "CHR ''/'' \<notin> set seg"
  shows "join (root # seg # ''..'' # rest) = join (root # rest)"
proof -
  define b where "b = join_sep (filter (\<lambda>x. x \<noteq> []) rest)"
  have b: "b \<noteq> []"
    unfolding b_def using assms(2) by (intro join_sep_not_Nil) auto
  have "join (root # seg # ''..'' # rest) = normalize_path (root @ CHR ''/'' # seg @ ''/../'' @ b)"
    using assms(1-3) by (simp add: join_def join_sep_Cons b_def)
  also have "\<dots> = normalize_path (root @ CHR ''/'' # b)"
    using assms b by (intro normalize_path_cancel)
  also have "\<dots> = join (root # rest)"
    using assms(1,2) by (simp add: join_def join_sep_Cons b_def)
  finally show ?thesis .
qed

lemma join_index_path:
  assumes "root \<noteq> []"
  shows "join [join [root, ''repos''], ''..'', ''dbt-index'', d, ''manifest.md''] =
         join [root, ''dbt-index'', d, ''manifest.md'']"
proof -
  have "join [join [root, ''repos''], ''..'', ''dbt-index'', d, ''manifest.md''] =
        join [root, ''repos'', ''..'', ''dbt-index'', d, ''manifest.md'']"
    using assms by (intro join_nested) auto
  also have "\<dots> = join [root, ''dbt-index'', d, ''manifest.md'']"
    using assms by (intro join_cancel) auto
  finally show ?thesis .
qed

text \<open>The paths the scanners build in two steps are the paths below the root.\<close>

lemma manifest_path_root:
  "root \<noteq> [] \<Longrightarrow>
   join [join [root, ''repos''], n, ''dbt_project.yml''] =
   join [root, ''repos'', n, ''dbt_project.yml'']"
  by (intro join_nested) auto

lemma manifest_path_sub:
  "root \<noteq> [] \<Longrightarrow>
   join [join [root, ''repos''], n, ''dbt'', ''dbt_project.yml''] =
   join [root, ''repos'', n, ''dbt'', ''dbt_project.yml'']"
  by (intro join_nested) auto

lemma type_path:
  "root \<noteq> [] \<Longrightarrow> n \<noteq> [] \<Longrightarrow>
   join [join [root, ''databases''], n] = join [root, ''databases'', n]"
  by (intro join_nested) auto

section \<open>The loops and the three functions\<close>

text \<open>
  The loops append to their accumulator the records of the entries that pass the tests,
  in the order of the listing; the scan of the connections fails as soon as the listing
  of one type directory fails.
\<close>

lemma try_catch_null: "try_catch body (\<lambda>e. Inr None) = Inr (case body of Inl e \<Rightarrow> None | Inr v \<Rightarrow> v)"
  by (simp add: try_catch_def split: sum.splits)

lemma repos_loop_eq:
  "repos_loop fs reposPath entries acc =
   acc @ map (repository_of fs reposPath) (filter isDirectory entries)"
  by (induction entries arbitrary: acc) auto

lemma db_loop_eq:
  "db_loop t dbEntries acc =
   acc @ map (\<lambda>d. \<lparr> type = t, database = remainder ''database='' d \<rparr>)
           (filter (qualifies ''database='') dbEntries)"
  by (induction dbEntries arbitrary: acc) (auto simp: Let_def qualifies_def remainder_def)

lemma conn_loop_ok:
  "\<forall>t\<in>set entries. qualifies ''type='' t \<longrightarrow>
     readdirSync fs (join [databasesPath, dirent_name t]) = Inr (dbs t) \<Longrightarrow>
   conn_loop fs databasesPath entries acc = Inr (acc @ spec_connections entries dbs)"
proof (induction entries arbitrary: acc)
  case Nil
  show ?case by (simp add: spec_connections_def)
next
  case (Cons e entries)
  then have IH: "\<And>acc. conn_loop fs databasesPath entries acc = Inr (acc @ spec_connections entries dbs)"
    by simp
  show ?case
  proof (cases "qualifies ''type='' e")
    case True
    with Cons.prems have rd: "readdirSync fs (join [databasesPath, dirent_name e]) = Inr (dbs e)"
      by simp
    have "spec_connections (e # entries) dbs =
          map (\<lambda>d. \<lparr> type = remainder ''type='' e, database = remainder ''database='' d \<rparr>)
            (filter (qualifies ''database='') (dbs e)) @ spec_connections entries dbs"
      using True by (simp add: spec_connections_def)
    moreover have "conn_loop fs databasesPath (e # entries) acc =
          conn_loop fs databasesPath entries (db_loop (remainder ''type='' e) (dbs e) acc)"
      using True rd by (simp add: qualifies_def remainder_def Let_def)
    ultimately show ?thesis by (simp add: IH db_loop_eq)
  next
    case False
    then have "spec_connections (e # entries) dbs = spec_connections entries dbs"
      by (simp add: spec_connections_def)
    moreover have "conn_loop fs databasesPath (e # entries) acc = conn_loop fs databasesPath entries acc"
      using False by (auto simp: qualifies_def Let_def)
    ultimately show ?thesis by (simp add: IH)
  qed
qed

lemma conn_loop_fail:
  "t \<in> set entries \<Longrightarrow> qualifies ''type='' t \<Longrightarrow>
   readdirSync fs (join [databasesPath, dirent_name t]) = Inl err \<Longrightarrow>
   \<exists>err'. conn_loop fs databasesPath entries acc = Inl err'"
proof (induction entries arbitrary: acc)
  case Nil
  then show ?case by simp
next
  case (Cons e entries)
  show ?case
  proof (cases "e = t")
    case True
    with Cons.prems show ?thesis by (simp add: qualifies_def Let_def)
  next
    case False
    with Cons.prems have "t \<in> set entries" by simp
    from Cons.IH [OF this Cons.prems(2,3)]
    show ?thesis by (auto simp: Let_def split: sum.splits)
  qed
qed

lemma getRepositories_listing:
  assumes "NAO_DEFAULT_PROJECT_PATH ev = Some root" and "root \<noteq> []"
    and "existsSync fs (join [root, ''repos''])"
    and "readdirSync fs (join [root, ''repos'']) = Inr entries"
  shows "getRepositories ev fs =
         Inr (let rs = map (repository_of fs (join [root, ''repos''])) (filter isDirectory entries)
              in if rs = [] then None else Some rs)"
  using assms by (simp add: getRepositories_def falsy_def try_catch_null repos_loop_eq Let_def)

lemma getRepositories_Some:
  assumes "getRepositories ev fs = Inr (Some rs)"
  obtains root entries where "NAO_DEFAULT_PROJECT_PATH ev = Some root" and "root \<noteq> []"
    and "existsSync fs (join [root, ''repos''])"
    and "readdirSync fs (join [root, ''repos'']) = Inr entries"
    and "rs = map (repository_of fs (join [root, ''repos''])) (filter isDirectory entries)"
    and "rs \<noteq> []"
proof (cases "NAO_DEFAULT_PROJECT_PATH ev")
  case None
  with assms show ?thesis by (simp add: getRepositories_def falsy_def)
next
  case (Some root)
  with assms have root: "root \<noteq> []" and ex: "existsSync fs (join [root, ''repos''])"
    by (auto simp: getRepositories_def falsy_def Let_def split: if_splits)
  show ?thesis
  proof (cases "readdirSync fs (join [root, ''repos''])")
    case (Inl e)
    with assms Some root ex show ?thesis
      by (simp add: getRepositories_def falsy_def Let_def try_catch_null)
  next
    case (Inr entries)
    from getRepositories_listing [OF Some root ex Inr] assms
    have "rs = map (repository_of fs (join [root, ''repos''])) (filter isDirectory entries)" "rs \<noteq> []"
      by (auto simp: Let_def split: if_splits)
    with that Some root ex Inr show ?thesis by blast
  qed
qed

lemma getConnections_listing:
  assumes "NAO_DEFAULT_PROJECT_PATH ev = Some root" and "root \<noteq> []"
    and "existsSync fs (join [root, ''databases''])"
    and "readdirSync fs (join [root, ''databases'']) = Inr entries"
  shows "getConnections ev fs =
         Inr (case conn_loop fs (join [root, ''databases'']) entries [] of
                Inl e \<Rightarrow> None
              | Inr cs \<Rightarrow> if cs = [] then None else Some cs)"
  using assms
  by (simp add: getConnections_def falsy_def try_catch_null Let_def split: sum.splits)

lemma returns_getUserRules: "\<exists>r. getUserRules ev fs = Inr r"
  by (simp add: getUserRules_def try_catch_null Let_def)

lemma returns_getRepositories: "\<exists>r. getRepositories ev fs = Inr r"
  by (simp add: getRepositories_def try_catch_null Let_def)

lemma returns_getConnections: "\<exists>r. getConnections ev fs = Inr r"
  by (simp add: getConnections_def try_catch_null Let_def)

lemma getRepositories_not_empty: "getRepositories ev fs \<noteq> Inr (Some [])"
  by (auto simp: getRepositories_def try_catch_null Let_def split: sum.splits)

lemma getConnections_not_empty: "getConnections ev fs \<noteq> Inr (Some [])"
  by (auto simp: getConnections_def try_catch_null Let_def split: sum.splits)

lemma falsy_null:
  "falsy (NAO_DEFAULT_PROJECT_PATH ev) \<Longrightarrow>
   getUserRules ev fs = Inr None \<and> getRepositories ev fs = Inr None \<and>
   getConnections ev fs = Inr None"
  by (simp add: getUserRules_def getRepositories_def getConnections_def)

lemma repository_of_name: "name (repository_of fs reposPath d) = dirent_name d"
  by (simp add: repository_of_def Let_def split: prod.splits)

lemma repository_of_path:
  "(if existsSync fs (join [reposPath, dirent_name d, ''dbt_project.yml'']) then
      hasDbtProject (repository_of fs reposPath d) \<and>
      dbtProjectPath (repository_of fs reposPath d) = Some (''repos/'' @ dirent_name d)
    else if existsSync fs (join [reposPath, dirent_name d, ''dbt'', ''dbt_project.yml'']) then
      hasDbtProject (repository_of fs reposPath d) \<and>
      dbtProjectPath (repository_of fs reposPath d) = Some (''repos/'' @ dirent_name d @ ''/dbt'')
    else \<not> hasDbtProject (repository_of fs reposPath d) \<and>
      dbtProjectPath (repository_of fs reposPath d) = None)"
  by (simp add: repository_of_def Let_def)

lemma repository_of_indexed:
  "indexed (repository_of fs reposPath d) =
   Some (hasDbtProject (repository_of fs reposPath d) \<and>
         existsSync fs (join [reposPath, ''..'', ''dbt-index'', dirent_name d, ''manifest.md'']))"
  by (simp add: repository_of_def Let_def)

lemma repository_of_no_path:
  "\<not> hasDbtProject (repository_of fs reposPath d) \<Longrightarrow>
   dbtProjectPath (repository_of fs reposPath d) = None"
  by (simp add: repository_of_def Let_def split: if_splits)

lemma repository_of_readFile:
  "repository_of (fs\<lparr>readFileSync := rf\<rparr>) reposPath d = repository_of fs reposPath d"
  by (simp add: repository_of_def)

lemma repos_loop_readFile:
  "repos_loop (fs\<lparr>readFileSync := rf\<rparr>) reposPath entries acc = repos_loop fs reposPath entries acc"
  by (induction entries arbitrary: acc) (simp_all add: repository_of_readFile)

lemma getRepositories_readFile:
  "getRepositories ev (fs\<lparr>readFileSync := rf\<rparr>) = getRepositories ev fs"
  by (simp add: getRepositories_def repos_loop_readFile Let_def split: sum.splits)

text \<open>
  The functions that record their calls return the results of the functions above, and
  the calls of a round of the repository loop are the two tests of the manifest and,
  for a project, the test of the index artifact.
\<close>

lemma getUserRules_traced_fst: "fst (getUserRules_traced ev fs) = getUserRules ev fs"
  by (simp add: getUserRules_traced_def getUserRules_def existsSync_traced_def
      readFileSync_traced_def Let_def)

lemma repository_traced_eq:
  "repository_traced fs reposPath d calls =
   (repository_of fs reposPath d,
    calls @
    ExistsSync (join [reposPath, dirent_name d, ''dbt_project.yml'']) #
    (if existsSync fs (join [reposPath, dirent_name d, ''dbt_project.yml'']) then []
     else [ExistsSync (join [reposPath, dirent_name d, ''dbt'', ''dbt_project.yml''])]) @
    (if hasDbtProject (repository_of fs reposPath d) then
       [ExistsSync (join [reposPath, ''..'', ''dbt-index'', dirent_name d, ''manifest.md''])]
     else []))"
  by (simp add: repository_traced_def repository_of_def existsSync_traced_def Let_def)

lemma repos_loop_traced_eq:
  "repos_loop_traced fs reposPath entries acc calls =
   (repos_loop fs reposPath entries acc,
    calls @ concat (map (\<lambda>d. snd (repository_traced fs reposPath d []))
                        (filter isDirectory entries)))"
proof (induction entries arbitrary: acc calls)
  case Nil
  show ?case by simp
next
  case (Cons e entries)
  show ?case
  proof (cases "isDirectory e")
    case True
    have "repository_traced fs reposPath e calls =
          (repository_of fs reposPath e, calls @ snd (repository_traced fs reposPath e []))"
      by (simp add: repository_traced_eq)
    with True Cons show ?thesis by simp
  next
    case False
    with Cons show ?thesis by simp
  qed
qed

lemma getRepositories_traced_fst: "fst (getRepositories_traced ev fs) = getRepositories ev fs"
  by (simp add: getRepositories_traced_def getRepositories_def existsSync_traced_def
      readdirSync_traced_def repos_loop_traced_eq Let_def split: sum.splits)

lemma conn_loop_traced_fst:
  "fst (conn_loop_traced fs databasesPath entries acc calls) =
   conn_loop fs databasesPath entries acc"
  by (induction entries arbitrary: acc calls)
    (simp_all add: readdirSync_traced_def Let_def split: sum.splits)

lemma getConnections_traced_fst: "fst (getConnections_traced ev fs) = getConnections ev fs"
proof -
  have "fst (case conn_loop_traced fs p entries [] calls of
          (scanned, calls3) \<Rightarrow> (f scanned, calls3)) = f (conn_loop fs p entries [])"
    for p entries calls and f :: "error + Connection list \<Rightarrow> error + Connection list option"
    using conn_loop_traced_fst [of fs p entries "[]" calls]
    by (cases "conn_loop_traced fs p entries [] calls") simp
  then show ?thesis
    by (simp add: getConnections_traced_def getConnections_def existsSync_traced_def
        readdirSync_traced_def Let_def split: sum.splits)
qed

lemma traced_unset:
  "falsy (NAO_DEFAULT_PROJECT_PATH ev) \<Longrightarrow>
   getUserRules_traced ev fs = (Inr None, []) \<and>
   getRepositories_traced ev fs = (Inr None, []) \<and>
   getConnections_traced ev fs = (Inr None, [])"
  by (simp add: getUserRules_traced_def getRepositories_traced_def getConnections_traced_def)

lemma getRepositories_traced_calls:
  assumes "NAO_DEFAULT_PROJECT_PATH ev = Some root" and "root \<noteq> []"
    and "existsSync fs (join [root, ''repos''])"
    and "readdirSync fs (join [root, ''repos'']) = Inr entries"
  shows "snd (getRepositories_traced ev fs) =
         ExistsSync (join [root, ''repos'']) # ReaddirSync (join [root, ''repos'']) #
         concat (map (\<lambda>d. snd (repository_traced fs (join [root, ''repos'']) d []))
                     (filter isDirectory entries))"
  using assms
  by (simp add: getRepositories_traced_def falsy_def existsSync_traced_def
      readdirSync_traced_def repos_loop_traced_eq Let_def)

lemma no_read_in_round: "ReadFileSync p \<notin> set (snd (repository_traced fs reposPath d []))"
  by (simp add: repository_traced_eq)

lemma getRepositories_traced_no_read: "ReadFileSync p \<notin> set (snd (getRepositories_traced ev fs))"
  by (auto simp: getRepositories_traced_def existsSync_traced_def readdirSync_traced_def
      repos_loop_traced_eq no_read_in_round Let_def split: sum.splits)

section \<open>The claims\<close>

subsection \<open>C1: the \<open>indexed\<close> field of a directory without a manifest\<close>

text \<open>
  C1 as stated: for a directory under \<open>repos/\<close> without a manifest, the record has no
  \<open>indexed\<close> field at all. The code initialises \<open>indexed\<close> to \<open>false\<close> and always puts
  it in the record. In the workspace \<open>noproject_fs\<close> the only directory, \<open>baz\<close>, has no
  manifest, and its record holds \<open>indexed = false\<close>, a field that is present.
\<close>

theorem C1_indexed_present_counterexample:
  "getRepositories example_env noproject_fs =
     Inr (Some [\<lparr> name = ''baz'', hasDbtProject = False, dbtProjectPath = None,
                  indexed = Some False \<rparr>]) \<and>
   indexed \<lparr> name = ''baz'', hasDbtProject = False, dbtProjectPath = None,
             indexed = Some False \<rparr> \<noteq> None"
  by code_simp

text \<open>
  C1 as amended: every record \<open>getRepositories\<close> returns has the field \<open>indexed\<close>, and
  for a directory without a manifest (\<open>hasDbtProject = false\<close>) it is \<open>false\<close> and
  \<open>dbtProjectPath\<close> is undefined. So \<open>indexed\<close> alone does not tell "not a project" from
  "project, not yet indexed"; \<open>hasDbtProject\<close> does.
\<close>

theorem C1_indexed_false_without_project:
  assumes "getRepositories ev fs = Inr (Some rs)" and "r \<in> set rs"
  shows "indexed r \<noteq> None \<and>
         (\<not> hasDbtProject r \<longrightarrow> indexed r = Some False \<and> dbtProjectPath r = None)"
proof -
  from assms(1) obtain root entries where
    "rs = map (repository_of fs (join [root, ''repos''])) (filter isDirectory entries)"
    by (rule getRepositories_Some)
  with assms(2) obtain d where r: "r = repository_of fs (join [root, ''repos'']) d"
    by auto
  show ?thesis
    unfolding r by (simp add: repository_of_indexed repository_of_no_path)
qed

theorem C1_indexed_false_without_project_witness:
  "getRepositories example_env example_fs =
     Inr (Some [\<lparr> name = ''foo'', hasDbtProject = True, dbtProjectPath = Some ''repos/foo'',
                  indexed = Some False \<rparr>,
                \<lparr> name = ''bar'', hasDbtProject = True, dbtProjectPath = Some ''repos/bar/dbt'',
                  indexed = Some True \<rparr>,
                \<lparr> name = ''baz'', hasDbtProject = False, dbtProjectPath = None,
                  indexed = Some False \<rparr>]) \<and>
   indexed \<lparr> name = ''baz'', hasDbtProject = False, dbtProjectPath = None,
             indexed = Some False \<rparr> = Some False"
proof -
  have run: "getRepositories example_env example_fs =
     Inr (Some [\<lparr> name = ''foo'', hasDbtProject = True, dbtProjectPath = Some ''repos/foo'',
                  indexed = Some False \<rparr>,
                \<lparr> name = ''bar'', hasDbtProject = True, dbtProjectPath = Some ''repos/bar/dbt'',
                  indexed = Some True \<rparr>,
                \<lparr> name = ''baz'', hasDbtProject = False, dbtProjectPath = None,
                  indexed = Some False \<rparr>])"
    by code_simp
  from C1_indexed_false_without_project [OF run,
      of "\<lparr> name = ''baz'', hasDbtProject = False, dbtProjectPath = None, indexed = Some False \<rparr>"]
  show ?thesis using run by simp
qed

subsection \<open>C2: null or a non-empty list\<close>

text \<open>
  C2: for every configuration and file system, \<open>getRepositories\<close> and \<open>getConnections\<close>
  each return \<open>null\<close> or a non-empty list, never an empty array; in particular, a
  \<open>repos/\<close> directory whose listing is empty gives \<open>null\<close>.
\<close>

theorem C2_null_or_non_empty:
  "(getRepositories ev fs = Inr None \<or>
      (\<exists>rs. rs \<noteq> [] \<and> getRepositories ev fs = Inr (Some rs))) \<and>
   (getConnections ev fs = Inr None \<or>
      (\<exists>cs. cs \<noteq> [] \<and> getConnections ev fs = Inr (Some cs))) \<and>
   (NAO_DEFAULT_PROJECT_PATH ev = Some root \<and>
    readdirSync fs (join [root, ''repos'']) = Inr [] \<longrightarrow>
      getRepositories ev fs = Inr None)"
proof -
  obtain r where r: "getRepositories ev fs = Inr r"
    using returns_getRepositories by blast
  have a: "getRepositories ev fs = Inr None \<or>
      (\<exists>rs. rs \<noteq> [] \<and> getRepositories ev fs = Inr (Some rs))"
    using r getRepositories_not_empty [of ev fs] by (cases r) auto
  obtain c where c: "getConnections ev fs = Inr c"
    using returns_getConnections by blast
  have b: "getConnections ev fs = Inr None \<or>
      (\<exists>cs. cs \<noteq> [] \<and> getConnections ev fs = Inr (Some cs))"
    using c getConnections_not_empty [of ev fs] by (cases c) auto
  have "getRepositories ev fs = Inr None"
    if "NAO_DEFAULT_PROJECT_PATH ev = Some root" "readdirSync fs (join [root, ''repos'']) = Inr []"
    using that by (simp add: getRepositories_def try_catch_null Let_def)
  with a b show ?thesis by blast
qed

theorem C2_null_or_non_empty_witness:
  "NAO_DEFAULT_PROJECT_PATH example_env = Some ''/w'' \<and>
   existsSync emptydir_fs (join [''/w'', ''repos'']) \<and>
   readdirSync emptydir_fs (join [''/w'', ''repos'']) = Inr [] \<and>
   getRepositories example_env emptydir_fs = Inr None"
proof -
  have h: "NAO_DEFAULT_PROJECT_PATH example_env = Some ''/w'' \<and>
      readdirSync emptydir_fs (join [''/w'', ''repos'']) = Inr []"
    by code_simp
  have e: "existsSync emptydir_fs (join [''/w'', ''repos''])"
    by code_simp
  from C2_null_or_non_empty [of example_env emptydir_fs "''/w''"] h e
  show ?thesis by blast
qed

subsection \<open>C3: no exception leaves the three functions\<close>

text \<open>
  C3: each of \<open>getUserRules\<close>, \<open>getRepositories\<close> and \<open>getConnections\<close> returns for every
  configuration and file system (no exception leaves it). When the read of the rules
  file, the listing of \<open>repos/\<close>, the listing of \<open>databases/\<close> or, in the middle of the
  scan, the listing of a type directory throws, the result is \<open>null\<close>: the connections
  collected before the failure are not returned.
\<close>

theorem C3_never_throws:
  "(\<exists>r. getUserRules ev fs = Inr r) \<and>
   (\<exists>r. getRepositories ev fs = Inr r) \<and>
   (\<exists>r. getConnections ev fs = Inr r) \<and>
   (NAO_DEFAULT_PROJECT_PATH ev = Some root \<longrightarrow>
      (readFileSync fs (join [root, ''RULES.md'']) = Inl e \<longrightarrow>
         getUserRules ev fs = Inr None) \<and>
      (readdirSync fs (join [root, ''repos'']) = Inl e \<longrightarrow>
         getRepositories ev fs = Inr None) \<and>
      (readdirSync fs (join [root, ''databases'']) = Inl e \<longrightarrow>
         getConnections ev fs = Inr None) \<and>
      (readdirSync fs (join [root, ''databases'']) = Inr entries \<and> t \<in> set entries \<and>
       isDirectory t \<and> prefix ''type='' (dirent_name t) \<and>
       drop (length ''type='') (dirent_name t) \<noteq> [] \<and>
       readdirSync fs (join [root, ''databases'', dirent_name t]) = Inl e \<longrightarrow>
         getConnections ev fs = Inr None))"
proof -
  have "getUserRules ev fs = Inr None"
    if "NAO_DEFAULT_PROJECT_PATH ev = Some root" "readFileSync fs (join [root, ''RULES.md'']) = Inl e"
    using that by (simp add: getUserRules_def try_catch_null Let_def)
  moreover have "getRepositories ev fs = Inr None"
    if "NAO_DEFAULT_PROJECT_PATH ev = Some root" "readdirSync fs (join [root, ''repos'']) = Inl e"
    using that by (simp add: getRepositories_def try_catch_null Let_def)
  moreover have "getConnections ev fs = Inr None"
    if "NAO_DEFAULT_PROJECT_PATH ev = Some root" "readdirSync fs (join [root, ''databases'']) = Inl e"
    using that by (simp add: getConnections_def try_catch_null Let_def)
  moreover have "getConnections ev fs = Inr None"
    if ev: "NAO_DEFAULT_PROJECT_PATH ev = Some root"
      and rd: "readdirSync fs (join [root, ''databases'']) = Inr entries"
      and t: "t \<in> set entries" "isDirectory t" "prefix ''type='' (dirent_name t)"
        "drop (length ''type='') (dirent_name t) \<noteq> []"
      and fl: "readdirSync fs (join [root, ''databases'', dirent_name t]) = Inl e"
  proof (cases "root = []")
    case True
    with ev show ?thesis by (simp add: getConnections_def falsy_def)
  next
    case False
    have q: "qualifies ''type='' t"
      using t by (simp add: qualifies_def)
    have "dirent_name t \<noteq> []"
      using t(4) by auto
    with fl False have "readdirSync fs (join [join [root, ''databases''], dirent_name t]) = Inl e"
      by (simp add: type_path)
    from conn_loop_fail [OF t(1) q this]
    obtain e' where "conn_loop fs (join [root, ''databases'']) entries [] = Inl e'"
      by blast
    with ev rd show ?thesis
      by (simp add: getConnections_def try_catch_null Let_def)
  qed
  ultimately show ?thesis
    using returns_getUserRules [of ev fs] returns_getRepositories [of ev fs]
      returns_getConnections [of ev fs] by blast
qed

theorem C3_never_throws_witness:
  "NAO_DEFAULT_PROJECT_PATH example_env = Some ''/w'' \<and>
   readFileSync broken_fs (join [''/w'', ''RULES.md'']) = Inl (SystemError ''EACCES'') \<and>
   readdirSync broken_fs (join [''/w'', ''repos'']) = Inl (SystemError ''EACCES'') \<and>
   readdirSync broken_fs (join [''/w'', ''databases'']) =
     Inr [Dirent ''type=postgres'' True, Dirent ''type=bigquery'' True] \<and>
   readdirSync broken_fs (join [''/w'', ''databases'', ''type=postgres'']) =
     Inr [Dirent ''database=sales'' True] \<and>
   readdirSync broken_fs (join [''/w'', ''databases'', ''type=bigquery'']) =
     Inl (SystemError ''EACCES'') \<and>
   readdirSync unreadable_fs (join [''/w'', ''databases'']) = Inl (SystemError ''EACCES'') \<and>
   getUserRules example_env broken_fs = Inr None \<and>
   getRepositories example_env broken_fs = Inr None \<and>
   getConnections example_env broken_fs = Inr None \<and>
   getConnections example_env unreadable_fs = Inr None"
proof -
  have h: "NAO_DEFAULT_PROJECT_PATH example_env = Some ''/w''"
    "readFileSync broken_fs (join [''/w'', ''RULES.md'']) = Inl (SystemError ''EACCES'')"
    "readdirSync broken_fs (join [''/w'', ''repos'']) = Inl (SystemError ''EACCES'')"
    "readdirSync broken_fs (join [''/w'', ''databases'']) =
       Inr [Dirent ''type=postgres'' True, Dirent ''type=bigquery'' True]"
    "readdirSync broken_fs (join [''/w'', ''databases'', ''type=postgres'']) =
       Inr [Dirent ''database=sales'' True]"
    "readdirSync broken_fs (join [''/w'', ''databases'', ''type=bigquery'']) =
       Inl (SystemError ''EACCES'')"
    "readdirSync unreadable_fs (join [''/w'', ''databases'']) = Inl (SystemError ''EACCES'')"
    by code_simp+
  have t: "Dirent ''type=bigquery'' True \<in>
        set [Dirent ''type=postgres'' True, Dirent ''type=bigquery'' True] \<and>
      isDirectory (Dirent ''type=bigquery'' True) \<and>
      prefix ''type='' (dirent_name (Dirent ''type=bigquery'' True)) \<and>
      drop (length ''type='') (dirent_name (Dirent ''type=bigquery'' True)) \<noteq> [] \<and>
      dirent_name (Dirent ''type=bigquery'' True) = ''type=bigquery''"
    by simp
  from C3_never_throws [of example_env broken_fs "''/w''" "SystemError ''EACCES''"
      "[Dirent ''type=postgres'' True, Dirent ''type=bigquery'' True]"
      "Dirent ''type=bigquery'' True"]
    C3_never_throws [of example_env unreadable_fs "''/w''" "SystemError ''EACCES''"]
    h t
  show ?thesis by simp
qed

subsection \<open>C4: no configured root\<close>

text \<open>
  C4: when the project root is unset, \<open>getUserRules\<close>, \<open>getRepositories\<close> and
  \<open>getConnections\<close> return \<open>null\<close> whatever the file system is, and they do so without
  touching it: the list of the calls of the \<open>fs\<close> module each of them makes is empty.
\<close>

theorem C4_unset_root:
  assumes "NAO_DEFAULT_PROJECT_PATH ev = None"
  shows "getUserRules ev fs = Inr None \<and> getRepositories ev fs = Inr None \<and>
         getConnections ev fs = Inr None \<and>
         getUserRules_traced ev fs = (Inr None, []) \<and>
         getRepositories_traced ev fs = (Inr None, []) \<and>
         getConnections_traced ev fs = (Inr None, [])"
proof -
  from assms have f: "falsy (NAO_DEFAULT_PROJECT_PATH ev)"
    by (simp add: falsy_def)
  from falsy_null [OF f, of fs] traced_unset [OF f, of fs]
  show ?thesis by simp
qed

theorem C4_unset_root_witness:
  "NAO_DEFAULT_PROJECT_PATH unset_env = None \<and>
   getUserRules unset_env example_fs = Inr None \<and>
   getRepositories unset_env example_fs = Inr None \<and>
   getConnections unset_env example_fs = Inr None \<and>
   getUserRules_traced unset_env example_fs = (Inr None, []) \<and>
   getRepositories_traced unset_env example_fs = (Inr None, []) \<and>
   getConnections_traced unset_env example_fs = (Inr None, []) \<and>
   getUserRules_traced example_env example_fs =
     (Inr (Some []), [ExistsSync ''/w/RULES.md'', ReadFileSync ''/w/RULES.md''])"
proof -
  have h: "NAO_DEFAULT_PROJECT_PATH unset_env = None"
    by (simp add: unset_env_def)
  have c: "getUserRules_traced example_env example_fs =
     (Inr (Some []), [ExistsSync ''/w/RULES.md'', ReadFileSync ''/w/RULES.md''])"
    by code_simp
  from C4_unset_root [OF h, of example_fs] h c show ?thesis by simp
qed

subsection \<open>C5: where the manifest is found\<close>

text \<open>
  C5: for every directory \<open>D\<close> listed under \<open>repos/\<close> there is a record named \<open>D\<close>.
  If \<open>repos/D/dbt_project.yml\<close> exists, the record has \<open>hasDbtProject = true\<close> and
  \<open>dbtProjectPath = "repos/D"\<close>, also when the nested manifest exists too; otherwise,
  if \<open>repos/D/dbt/dbt_project.yml\<close> exists, \<open>dbtProjectPath = "repos/D/dbt"\<close>; the path
  is the directory of the manifest, not the manifest. With neither, the directory is
  not a project and has no path.
\<close>

theorem C5_project_path:
  assumes "NAO_DEFAULT_PROJECT_PATH ev = Some root" and "root \<noteq> []"
    and "existsSync fs (join [root, ''repos''])"
    and "readdirSync fs (join [root, ''repos'']) = Inr entries"
    and "d \<in> set entries" and "isDirectory d"
  shows "\<exists>rs r. getRepositories ev fs = Inr (Some rs) \<and> r \<in> set rs \<and>
           name r = dirent_name d \<and>
           (if existsSync fs (join [root, ''repos'', dirent_name d, ''dbt_project.yml''])
            then hasDbtProject r \<and> dbtProjectPath r = Some (''repos/'' @ dirent_name d)
            else if existsSync fs
                      (join [root, ''repos'', dirent_name d, ''dbt'', ''dbt_project.yml''])
            then hasDbtProject r \<and>
                 dbtProjectPath r = Some (''repos/'' @ dirent_name d @ ''/dbt'')
            else \<not> hasDbtProject r \<and> dbtProjectPath r = None)"
proof -
  define rs where
    "rs = map (repository_of fs (join [root, ''repos''])) (filter isDirectory entries)"
  define r where "r = repository_of fs (join [root, ''repos'']) d"
  have mem: "r \<in> set rs"
    using assms(5,6) by (simp add: rs_def r_def)
  then have "rs \<noteq> []" by auto
  with getRepositories_listing [OF assms(1-4)]
  have "getRepositories ev fs = Inr (Some rs)"
    by (simp add: rs_def Let_def)
  moreover have "name r = dirent_name d"
    by (simp add: r_def repository_of_name)
  ultimately show ?thesis
    using mem repository_of_path [of fs "join [root, ''repos'']" d]
    unfolding r_def [symmetric] manifest_path_root [OF assms(2)] manifest_path_sub [OF assms(2)]
    by blast
qed

theorem C5_project_path_witness:
  "NAO_DEFAULT_PROJECT_PATH example_env = Some ''/w'' \<and>
   existsSync example_fs (join [''/w'', ''repos'']) \<and>
   readdirSync example_fs (join [''/w'', ''repos'']) =
     Inr [Dirent ''foo'' True, Dirent ''README.md'' False, Dirent ''bar'' True,
          Dirent ''baz'' True] \<and>
   existsSync example_fs (join [''/w'', ''repos'', ''foo'', ''dbt_project.yml'']) \<and>
   existsSync example_fs (join [''/w'', ''repos'', ''foo'', ''dbt'', ''dbt_project.yml'']) \<and>
   \<not> existsSync example_fs (join [''/w'', ''repos'', ''bar'', ''dbt_project.yml'']) \<and>
   existsSync example_fs (join [''/w'', ''repos'', ''bar'', ''dbt'', ''dbt_project.yml'']) \<and>
   (\<exists>rs r. getRepositories example_env example_fs = Inr (Some rs) \<and> r \<in> set rs \<and>
      name r = ''foo'' \<and> hasDbtProject r \<and> dbtProjectPath r = Some ''repos/foo'') \<and>
   (\<exists>rs r. getRepositories example_env example_fs = Inr (Some rs) \<and> r \<in> set rs \<and>
      name r = ''bar'' \<and> hasDbtProject r \<and> dbtProjectPath r = Some ''repos/bar/dbt'')"
proof -
  have h1: "NAO_DEFAULT_PROJECT_PATH example_env = Some ''/w''"
    and h2: "''/w'' \<noteq> []"
    and h3: "existsSync example_fs (join [''/w'', ''repos''])"
    and h4: "readdirSync example_fs (join [''/w'', ''repos'']) =
       Inr [Dirent ''foo'' True, Dirent ''README.md'' False, Dirent ''bar'' True,
            Dirent ''baz'' True]"
    by code_simp+
  have x: "existsSync example_fs (join [''/w'', ''repos'', ''foo'', ''dbt_project.yml''])"
    "existsSync example_fs (join [''/w'', ''repos'', ''foo'', ''dbt'', ''dbt_project.yml''])"
    "\<not> existsSync example_fs (join [''/w'', ''repos'', ''bar'', ''dbt_project.yml''])"
    "existsSync example_fs (join [''/w'', ''repos'', ''bar'', ''dbt'', ''dbt_project.yml''])"
    by code_simp+
  from C5_project_path [OF h1 h2 h3 h4, of "Dirent ''foo'' True"]
    C5_project_path [OF h1 h2 h3 h4, of "Dirent ''bar'' True"]
  show ?thesis using h1 h3 h4 x by simp
qed

subsection \<open>C6: the index artifact\<close>

text \<open>
  C6: for a record of a project directory \<open>D\<close> (\<open>hasDbtProject = true\<close>, the manifest at
  either place), \<open>indexed\<close> is the existence of \<open>root/dbt-index/D/manifest.md\<close>, with
  \<open>D\<close> directly under \<open>dbt-index/\<close>. The calls the scan makes are the test and the
  listing of \<open>repos/\<close> and then, for each record in order, the test of the root-level
  manifest, the test of the nested manifest when the first failed, and the test of the
  index artifact exactly when the record has \<open>hasDbtProject = true\<close>. No file is read:
  there is no call of \<open>readFileSync\<close>, and replacing \<open>readFileSync\<close> changes nothing.
\<close>

theorem C6_indexed_by_name:
  assumes "NAO_DEFAULT_PROJECT_PATH ev = Some root"
    and "getRepositories ev fs = Inr (Some rs)" and "r \<in> set rs"
  shows "(hasDbtProject r \<longrightarrow>
            indexed r = Some (existsSync fs (join [root, ''dbt-index'', name r, ''manifest.md'']))) \<and>
         (\<not> hasDbtProject r \<longrightarrow> indexed r = Some False) \<and>
         getRepositories ev (fs\<lparr>readFileSync := rf\<rparr>) = getRepositories ev fs \<and>
         fst (getRepositories_traced ev fs) = Inr (Some rs) \<and>
         (\<forall>p. ReadFileSync p \<notin> set (snd (getRepositories_traced ev fs))) \<and>
         snd (getRepositories_traced ev fs) =
           ExistsSync (join [root, ''repos'']) # ReaddirSync (join [root, ''repos'']) #
           concat (map (\<lambda>r.
               ExistsSync (join [root, ''repos'', name r, ''dbt_project.yml'']) #
               (if existsSync fs (join [root, ''repos'', name r, ''dbt_project.yml'']) then []
                else [ExistsSync (join [root, ''repos'', name r, ''dbt'', ''dbt_project.yml''])]) @
               (if hasDbtProject r then
                  [ExistsSync (join [root, ''dbt-index'', name r, ''manifest.md''])]
                else [])) rs)"
proof -
  from assms(2) obtain root' entries where
    "NAO_DEFAULT_PROJECT_PATH ev = Some root'" and "root' \<noteq> []"
    and "existsSync fs (join [root', ''repos''])"
    and "readdirSync fs (join [root', ''repos'']) = Inr entries"
    and "rs = map (repository_of fs (join [root', ''repos''])) (filter isDirectory entries)"
    by (rule getRepositories_Some)
  with assms(1) have root: "root \<noteq> []"
    and ex: "existsSync fs (join [root, ''repos''])"
    and rd: "readdirSync fs (join [root, ''repos'']) = Inr entries"
    and rs: "rs = map (repository_of fs (join [root, ''repos''])) (filter isDirectory entries)"
    by auto
  from rs assms(3) obtain d where r: "r = repository_of fs (join [root, ''repos'']) d"
    by auto
  have "indexed r = Some (hasDbtProject r \<and>
          existsSync fs (join [root, ''dbt-index'', name r, ''manifest.md'']))"
    unfolding r
    by (simp add: repository_of_indexed repository_of_name join_index_path [OF root])
  then have a: "(hasDbtProject r \<longrightarrow>
            indexed r = Some (existsSync fs (join [root, ''dbt-index'', name r, ''manifest.md'']))) \<and>
         (\<not> hasDbtProject r \<longrightarrow> indexed r = Some False)"
    by simp
  have b: "fst (getRepositories_traced ev fs) = Inr (Some rs)"
    using assms(2) by (simp add: getRepositories_traced_fst)
  have round: "snd (repository_traced fs (join [root, ''repos'']) d []) =
      ExistsSync (join [root, ''repos'', name q, ''dbt_project.yml'']) #
      (if existsSync fs (join [root, ''repos'', name q, ''dbt_project.yml'']) then []
       else [ExistsSync (join [root, ''repos'', name q, ''dbt'', ''dbt_project.yml''])]) @
      (if hasDbtProject q then [ExistsSync (join [root, ''dbt-index'', name q, ''manifest.md''])]
       else [])"
    if "q = repository_of fs (join [root, ''repos'']) d" for d q
    unfolding that
    by (simp add: repository_traced_eq repository_of_name manifest_path_root [OF root]
        manifest_path_sub [OF root] join_index_path [OF root])
  have c: "snd (getRepositories_traced ev fs) =
           ExistsSync (join [root, ''repos'']) # ReaddirSync (join [root, ''repos'']) #
           concat (map (\<lambda>r.
               ExistsSync (join [root, ''repos'', name r, ''dbt_project.yml'']) #
               (if existsSync fs (join [root, ''repos'', name r, ''dbt_project.yml'']) then []
                else [ExistsSync (join [root, ''repos'', name r, ''dbt'', ''dbt_project.yml''])]) @
               (if hasDbtProject r then
                  [ExistsSync (join [root, ''dbt-index'', name r, ''manifest.md''])]
                else [])) rs)"
    unfolding getRepositories_traced_calls [OF assms(1) root ex rd] rs
    by (simp add: comp_def round [OF refl])
  from a b c show ?thesis
    by (simp add: getRepositories_readFile getRepositories_traced_no_read)
qed

theorem C6_indexed_by_name_witness:
  "NAO_DEFAULT_PROJECT_PATH example_env = Some ''/w'' \<and>
   getRepositories example_env example_fs =
     Inr (Some [\<lparr> name = ''foo'', hasDbtProject = True, dbtProjectPath = Some ''repos/foo'',
                  indexed = Some False \<rparr>,
                \<lparr> name = ''bar'', hasDbtProject = True, dbtProjectPath = Some ''repos/bar/dbt'',
                  indexed = Some True \<rparr>,
                \<lparr> name = ''baz'', hasDbtProject = False, dbtProjectPath = None,
                  indexed = Some False \<rparr>]) \<and>
   existsSync example_fs (join [''/w'', ''dbt-index'', ''bar'', ''manifest.md'']) \<and>
   \<not> existsSync example_fs (join [''/w'', ''dbt-index'', ''foo'', ''manifest.md'']) \<and>
   existsSync example_fs (join [''/w'', ''dbt-index'', ''baz'', ''manifest.md'']) \<and>
   getRepositories example_env (example_fs\<lparr>readFileSync := (\<lambda>p. Inr ''x'')\<rparr>) =
     getRepositories example_env example_fs \<and>
   snd (getRepositories_traced example_env example_fs) =
     [ExistsSync ''/w/repos'', ReaddirSync ''/w/repos'',
      ExistsSync ''/w/repos/foo/dbt_project.yml'',
      ExistsSync ''/w/dbt-index/foo/manifest.md'',
      ExistsSync ''/w/repos/bar/dbt_project.yml'',
      ExistsSync ''/w/repos/bar/dbt/dbt_project.yml'',
      ExistsSync ''/w/dbt-index/bar/manifest.md'',
      ExistsSync ''/w/repos/baz/dbt_project.yml'',
      ExistsSync ''/w/repos/baz/dbt/dbt_project.yml'']"
proof -
  have h: "NAO_DEFAULT_PROJECT_PATH example_env = Some ''/w''"
    by code_simp
  have run: "getRepositories example_env example_fs =
     Inr (Some [\<lparr> name = ''foo'', hasDbtProject = True, dbtProjectPath = Some ''repos/foo'',
                  indexed = Some False \<rparr>,
                \<lparr> name = ''bar'', hasDbtProject = True, dbtProjectPath = Some ''repos/bar/dbt'',
                  indexed = Some True \<rparr>,
                \<lparr> name = ''baz'', hasDbtProject = False, dbtProjectPath = None,
                  indexed = Some False \<rparr>])"
    by code_simp
  have z: "existsSync example_fs (join [''/w'', ''dbt-index'', ''baz'', ''manifest.md''])"
    by code_simp
  have paths: "join [''/w'', ''repos''] = ''/w/repos''"
    "join [''/w'', ''repos'', ''foo'', ''dbt_project.yml''] = ''/w/repos/foo/dbt_project.yml''"
    "join [''/w'', ''repos'', ''bar'', ''dbt_project.yml''] = ''/w/repos/bar/dbt_project.yml''"
    "join [''/w'', ''repos'', ''baz'', ''dbt_project.yml''] = ''/w/repos/baz/dbt_project.yml''"
    "join [''/w'', ''repos'', ''bar'', ''dbt'', ''dbt_project.yml''] = ''/w/repos/bar/dbt/dbt_project.yml''"
    "join [''/w'', ''repos'', ''baz'', ''dbt'', ''dbt_project.yml''] = ''/w/repos/baz/dbt/dbt_project.yml''"
    "join [''/w'', ''dbt-index'', ''foo'', ''manifest.md''] = ''/w/dbt-index/foo/manifest.md''"
    "join [''/w'', ''dbt-index'', ''bar'', ''manifest.md''] = ''/w/dbt-index/bar/manifest.md''"
    by code_simp+
  have x: "existsSync example_fs ''/w/repos/foo/dbt_project.yml''"
    "\<not> existsSync example_fs ''/w/repos/bar/dbt_project.yml''"
    "\<not> existsSync example_fs ''/w/repos/baz/dbt_project.yml''"
    by code_simp+
  from C6_indexed_by_name [OF h run, of
      "\<lparr> name = ''bar'', hasDbtProject = True, dbtProjectPath = Some ''repos/bar/dbt'',
         indexed = Some True \<rparr>" "\<lambda>p. Inr ''x''"]
    C6_indexed_by_name [OF h run, of
      "\<lparr> name = ''foo'', hasDbtProject = True, dbtProjectPath = Some ''repos/foo'',
         indexed = Some False \<rparr>" "\<lambda>p. Inr ''x''"]
    C6_indexed_by_name [OF h run, of
      "\<lparr> name = ''baz'', hasDbtProject = False, dbtProjectPath = None,
         indexed = Some False \<rparr>" "\<lambda>p. Inr ''x''"]
  show ?thesis using h run z by (simp add: paths x)
qed

subsection \<open>C7: the connections\<close>

text \<open>
  C7: when \<open>databases/\<close> and every type directory in it can be listed, \<open>getConnections\<close>
  returns the list the specification describes (\<open>spec_connections\<close>), or \<open>null\<close> when
  that list is empty: one record for every pair of a directory \<open>type=T\<close> with \<open>T\<close>
  non-empty and a directory \<open>database=D\<close> in it with \<open>D\<close> non-empty, nothing for any
  other entry, in the order of the listings with the databases of one type together,
  and with no record removed as a duplicate.
\<close>

theorem C7_connections:
  assumes "NAO_DEFAULT_PROJECT_PATH ev = Some root" and "root \<noteq> []"
    and "existsSync fs (join [root, ''databases''])"
    and "readdirSync fs (join [root, ''databases'']) = Inr entries"
    and "\<forall>t\<in>set entries. qualifies ''type='' t \<longrightarrow>
           readdirSync fs (join [root, ''databases'', dirent_name t]) = Inr (dbs t)"
  shows "getConnections ev fs =
         Inr (if spec_connections entries dbs = [] then None
              else Some (spec_connections entries dbs))"
proof -
  have "readdirSync fs (join [join [root, ''databases''], dirent_name t]) = Inr (dbs t)"
    if "t \<in> set entries" "qualifies ''type='' t" for t
  proof -
    from that(2) have "dirent_name t \<noteq> []"
      by (auto simp: qualifies_def)
    with assms(2,5) that show ?thesis
      by (simp add: type_path)
  qed
  then have "\<forall>t\<in>set entries. qualifies ''type='' t \<longrightarrow>
      readdirSync fs (join [join [root, ''databases''], dirent_name t]) = Inr (dbs t)"
    by blast
  from getConnections_listing [OF assms(1-4)] conn_loop_ok [OF this, of "[]"]
  show ?thesis by simp
qed

theorem C7_connections_witness:
  "NAO_DEFAULT_PROJECT_PATH example_env = Some ''/w'' \<and>
   existsSync example_fs (join [''/w'', ''databases'']) \<and>
   readdirSync example_fs (join [''/w'', ''databases'']) =
     Inr [Dirent ''type=postgres'' True, Dirent ''type='' True, Dirent ''notes'' True,
          Dirent ''type=file'' False, Dirent ''type=bigquery'' True] \<and>
   readdirSync example_fs (join [''/w'', ''databases'', ''type=postgres'']) =
     Inr [Dirent ''database=sales'' True, Dirent ''database='' True,
          Dirent ''schema=x'' True, Dirent ''database=marketing'' True] \<and>
   readdirSync example_fs (join [''/w'', ''databases'', ''type=bigquery'']) =
     Inr [Dirent ''database=sales'' True, Dirent ''database=raw'' False] \<and>
   readdirSync example_fs (join [''/w'', ''databases'', ''type='']) =
     Inr [Dirent ''database=x'' True] \<and>
   getConnections example_env example_fs =
     Inr (Some [\<lparr> type = ''postgres'', database = ''sales'' \<rparr>,
                \<lparr> type = ''postgres'', database = ''marketing'' \<rparr>,
                \<lparr> type = ''bigquery'', database = ''sales'' \<rparr>])"
proof -
  define dbs where "dbs = (\<lambda>t.
    if dirent_name t = ''type=postgres'' then
      [Dirent ''database=sales'' True, Dirent ''database='' True,
       Dirent ''schema=x'' True, Dirent ''database=marketing'' True]
    else [Dirent ''database=sales'' True, Dirent ''database=raw'' False])"
  define entries where "entries =
    [Dirent ''type=postgres'' True, Dirent ''type='' True, Dirent ''notes'' True,
     Dirent ''type=file'' False, Dirent ''type=bigquery'' True]"
  have h1: "NAO_DEFAULT_PROJECT_PATH example_env = Some ''/w''"
    and h2: "''/w'' \<noteq> []"
    and h3: "existsSync example_fs (join [''/w'', ''databases''])"
    by code_simp+
  have h4: "readdirSync example_fs (join [''/w'', ''databases'']) = Inr entries"
    unfolding entries_def by code_simp
  have p: "readdirSync example_fs (join [''/w'', ''databases'', ''type=postgres'']) =
     Inr [Dirent ''database=sales'' True, Dirent ''database='' True,
          Dirent ''schema=x'' True, Dirent ''database=marketing'' True]"
    and b: "readdirSync example_fs (join [''/w'', ''databases'', ''type=bigquery'']) =
     Inr [Dirent ''database=sales'' True, Dirent ''database=raw'' False]"
    and e: "readdirSync example_fs (join [''/w'', ''databases'', ''type='']) =
     Inr [Dirent ''database=x'' True]"
    by code_simp+
  have h5: "\<forall>t\<in>set entries. qualifies ''type='' t \<longrightarrow>
      readdirSync example_fs (join [''/w'', ''databases'', dirent_name t]) = Inr (dbs t)"
    using p b by (simp add: entries_def dbs_def qualifies_def)
  have s: "spec_connections entries dbs =
      [\<lparr> type = ''postgres'', database = ''sales'' \<rparr>,
       \<lparr> type = ''postgres'', database = ''marketing'' \<rparr>,
       \<lparr> type = ''bigquery'', database = ''sales'' \<rparr>]"
    by (simp add: spec_connections_def entries_def dbs_def qualifies_def remainder_def)
  from C7_connections [OF h1 h2 h3 h4 h5]
  show ?thesis using h1 h3 h4 p b e s by (simp add: entries_def)
qed

subsection \<open>C8: one record per directory\<close>

text \<open>
  C8: when \<open>repos/\<close> exists and can be listed, \<open>getRepositories\<close> returns one record for
  each entry that is a directory, project or not, named after it and in the order of
  the listing; entries that are not directories give no record. (With no directory at
  all the result is \<open>null\<close>.)
\<close>

theorem C8_one_record_per_directory:
  assumes "NAO_DEFAULT_PROJECT_PATH ev = Some root" and "root \<noteq> []"
    and "existsSync fs (join [root, ''repos''])"
    and "readdirSync fs (join [root, ''repos'']) = Inr entries"
  shows "\<exists>rs. getRepositories ev fs = Inr (if rs = [] then None else Some rs) \<and>
           map name rs = map dirent_name (filter isDirectory entries)"
proof -
  define rs where
    "rs = map (repository_of fs (join [root, ''repos''])) (filter isDirectory entries)"
  have "getRepositories ev fs = Inr (if rs = [] then None else Some rs)"
    using getRepositories_listing [OF assms] by (simp add: rs_def Let_def)
  moreover have "map name rs = map dirent_name (filter isDirectory entries)"
    by (simp add: rs_def repository_of_name)
  ultimately show ?thesis by blast
qed

theorem C8_one_record_per_directory_witness:
  "NAO_DEFAULT_PROJECT_PATH example_env = Some ''/w'' \<and>
   existsSync example_fs (join [''/w'', ''repos'']) \<and>
   readdirSync example_fs (join [''/w'', ''repos'']) =
     Inr [Dirent ''foo'' True, Dirent ''README.md'' False, Dirent ''bar'' True,
          Dirent ''baz'' True] \<and>
   (\<exists>rs. getRepositories example_env example_fs = Inr (Some rs) \<and>
      map name rs = [''foo'', ''bar'', ''baz''])"
proof -
  have h1: "NAO_DEFAULT_PROJECT_PATH example_env = Some ''/w''"
    and h2: "''/w'' \<noteq> []"
    and h3: "existsSync example_fs (join [''/w'', ''repos''])"
    and h4: "readdirSync example_fs (join [''/w'', ''repos'']) =
       Inr [Dirent ''foo'' True, Dirent ''README.md'' False, Dirent ''bar'' True,
            Dirent ''baz'' True]"
    by code_simp+
  from C8_one_record_per_directory [OF h1 h2 h3 h4]
  obtain rs where
    run: "getRepositories example_env example_fs = Inr (if rs = [] then None else Some rs)"
    and names: "map name rs = map dirent_name (filter isDirectory
      [Dirent ''foo'' True, Dirent ''README.md'' False, Dirent ''bar'' True, Dirent ''baz'' True])"
    by blast
  from names have n: "map name rs = [''foo'', ''bar'', ''baz'']" by simp
  then have "rs \<noteq> []" by auto
  with run have "getRepositories example_env example_fs = Inr (Some rs)" by simp
  with n h1 h3 h4 show ?thesis by (intro conjI exI [of _ rs])
qed

subsection \<open>C9: the rules file\<close>

text \<open>
  C9: \<open>getUserRules\<close> returns \<open>null\<close> when the root is not configured, when
  \<open>root/RULES.md\<close> does not exist, and when it exists and reading it throws; when the
  read succeeds it returns the content as read, whatever it is, so an empty file gives
  the empty string and not \<open>null\<close>. In no case does an exception leave the function.
\<close>

theorem C9_rules_verbatim_or_null:
  "(falsy (NAO_DEFAULT_PROJECT_PATH ev) \<longrightarrow> getUserRules ev fs = Inr None) \<and>
   (NAO_DEFAULT_PROJECT_PATH ev = Some root \<and> root \<noteq> [] \<longrightarrow>
      (\<not> existsSync fs (join [root, ''RULES.md'']) \<longrightarrow> getUserRules ev fs = Inr None) \<and>
      (existsSync fs (join [root, ''RULES.md'']) \<and>
       readFileSync fs (join [root, ''RULES.md'']) = Inl e \<longrightarrow>
         getUserRules ev fs = Inr None) \<and>
      (existsSync fs (join [root, ''RULES.md'']) \<and>
       readFileSync fs (join [root, ''RULES.md'']) = Inr content \<longrightarrow>
         getUserRules ev fs = Inr (Some content)))"
  by (simp add: getUserRules_def try_catch_null Let_def falsy_def)

theorem C9_rules_verbatim_or_null_witness:
  "falsy (NAO_DEFAULT_PROJECT_PATH unset_env) \<and>
   getUserRules unset_env example_fs = Inr None \<and>
   NAO_DEFAULT_PROJECT_PATH example_env = Some ''/w'' \<and>
   \<not> existsSync emptydir_fs (join [''/w'', ''RULES.md'']) \<and>
   getUserRules example_env emptydir_fs = Inr None \<and>
   existsSync broken_fs (join [''/w'', ''RULES.md'']) \<and>
   readFileSync broken_fs (join [''/w'', ''RULES.md'']) = Inl (SystemError ''EACCES'') \<and>
   getUserRules example_env broken_fs = Inr None \<and>
   existsSync example_fs (join [''/w'', ''RULES.md'']) \<and>
   readFileSync example_fs (join [''/w'', ''RULES.md'']) = Inr [] \<and>
   getUserRules example_env example_fs = Inr (Some [])"
proof -
  have h: "falsy (NAO_DEFAULT_PROJECT_PATH unset_env)"
    "NAO_DEFAULT_PROJECT_PATH example_env = Some ''/w''"
    "\<not> existsSync emptydir_fs (join [''/w'', ''RULES.md''])"
    "existsSync broken_fs (join [''/w'', ''RULES.md''])"
    "readFileSync broken_fs (join [''/w'', ''RULES.md'']) = Inl (SystemError ''EACCES'')"
    "existsSync example_fs (join [''/w'', ''RULES.md''])"
    "readFileSync example_fs (join [''/w'', ''RULES.md'']) = Inr []"
    by code_simp+
  from C9_rules_verbatim_or_null [of unset_env example_fs]
    C9_rules_verbatim_or_null [of example_env emptydir_fs "''/w''"]
    C9_rules_verbatim_or_null [of example_env broken_fs "''/w''" "SystemError ''EACCES''"]
    C9_rules_verbatim_or_null [of example_env example_fs "''/w''" _ "[]"]
  show ?thesis using h by simp
qed

subsection \<open>C10: an empty root\<close>

text \<open>
  C10: when the project root is configured as the empty string, the three functions
  return \<open>null\<close> for every file system, as they do for an unset root: the test on the
  root is a test of truthiness.
\<close>

theorem C10_empty_root:
  assumes "NAO_DEFAULT_PROJECT_PATH ev = Some []"
  shows "getUserRules ev fs = Inr None \<and> getRepositories ev fs = Inr None \<and>
         getConnections ev fs = Inr None"
  using assms by (intro falsy_null) (simp add: falsy_def)

theorem C10_empty_root_witness:
  "NAO_DEFAULT_PROJECT_PATH empty_root_env = Some [] \<and>
   getUserRules empty_root_env unreadable_fs = Inr None \<and>
   getRepositories empty_root_env unreadable_fs = Inr None \<and>
   getConnections empty_root_env unreadable_fs = Inr None"
proof -
  have h: "NAO_DEFAULT_PROJECT_PATH empty_root_env = Some []"
    by (simp add: empty_root_env_def)
  from C10_empty_root [OF h, of unreadable_fs] h show ?thesis by simp
qed

end
